theory Spec2Isabelle
  imports Main "HOL-Library.Word"
begin

unbundle bit_operations_syntax

section \<open>Addresses, masks and subnets (Go's package net, as proxy.go uses it)\<close>

text \<open>
  A Go byte slice is a list of 8-bit words; the nil slice is the empty list. An address
  is 4 bytes (IPv4) or 16 bytes (IPv6, or IPv4 in its IPv4-in-IPv6 form).
\<close>

type_synonym byte = "8 word"
type_synonym IP = "byte list"
type_synonym IPMask = "byte list"

record IPNet =
  IP :: IP
  Mask :: IPMask

text \<open>
  \<^verbatim>\<open>func (ip IP) To4() IP\<close>: the 4-byte form of an IPv4 address, nil (\<open>None\<close>) when
  the address is not an IPv4 address.
\<close>

definition isZeros :: "byte list \<Rightarrow> bool" where
  "isZeros p = list_all (\<lambda>b. b = 0) p"

definition To4 :: "IP \<Rightarrow> IP option" where
  "To4 ip =
     (if length ip = 4 then Some ip
      else if length ip = 16 \<and> isZeros (take 10 ip) \<and> ip ! 10 = 0xff \<and> ip ! 11 = 0xff
        then Some (drop 12 ip)
      else None)"

text \<open>
  \<^verbatim>\<open>func networkNumberAndMask(n *IPNet) (ip IP, m IPMask)\<close>: the pair (nil, nil) is the
  pair of empty lists.
\<close>

definition networkNumberAndMask :: "IPNet \<Rightarrow> IP \<times> IPMask" where
  "networkNumberAndMask n =
     (case (case To4 (IP n) of
              Some x \<Rightarrow> Some x
            | None \<Rightarrow> if length (IP n) \<noteq> 16 then None else Some (IP n)) of
        None \<Rightarrow> ([], [])
      | Some ip \<Rightarrow>
          if length (Mask n) = 4 then
            (if length ip \<noteq> 4 then ([], []) else (ip, Mask n))
          else if length (Mask n) = 16 then
            (if length ip = 4 then (ip, drop 12 (Mask n)) else (ip, Mask n))
          else ([], []))"

text \<open>
  \<^verbatim>\<open>func (n *IPNet) Contains(ip IP) bool\<close>: the address, in its 4-byte form when it has
  one, agrees with the network number on every bit of the mask.
\<close>

definition Contains :: "IPNet \<Rightarrow> IP \<Rightarrow> bool" where
  "Contains n ip0 =
     (let (nn, m) = networkNumberAndMask n;
          ip = (case To4 ip0 of Some x \<Rightarrow> x | None \<Rightarrow> ip0);
          l = length ip
      in if l \<noteq> length nn then False
         else list_all (\<lambda>i. (nn ! i) AND (m ! i) = (ip ! i) AND (m ! i)) [0..<l])"

text \<open>
  \<^verbatim>\<open>func simpleMaskLength(mask IPMask) int\<close>. The inner loop
  \<^verbatim>\<open>for v&0x80 != 0 { n++; v <<= 1 }\<close> counts the leading one bits of the first byte
  that is not 0xff; the mask is then canonical when no bit is left in that byte and
  every later byte is 0, and the result is -1 when it is not.
\<close>

function countOnes :: "int \<Rightarrow> byte \<Rightarrow> int \<times> byte" where
  "countOnes n v = (if v AND 0x80 \<noteq> 0 then countOnes (n + 1) (push_bit 1 v) else (n, v))"
  by pat_completeness auto
termination
proof (relation "measure (\<lambda>(n, v). unat v)")
  show "wf (measure (\<lambda>(n, v). unat v))" by simp
next
  fix n :: int and v :: byte
  assume nz: "v AND 0x80 \<noteq> 0"
  have top: "bit v 7"
  proof (rule ccontr)
    assume nb: "\<not> bit v 7"
    have "v AND 0x80 = 0"
    proof (rule bit_eqI)
      fix k
      assume "possible_bit TYPE(8 word) k"
      then have "k < 8" by (simp add: possible_bit_def)
      then have "k = 0 \<or> k = 1 \<or> k = 2 \<or> k = 3 \<or> k = 4 \<or> k = 5 \<or> k = 6 \<or> k = 7"
        by arith
      then show "bit (v AND 0x80) k = bit (0::8 word) k"
        using nb by (auto simp add: bit_and_iff)
    qed
    with nz show False by simp
  qed
  then have "bit (unat v) 7" by (simp add: bit_unsigned_iff)
  then have "odd (unat v div 2 ^ 7)" by (simp add: bit_iff_odd)
  then have "unat v div 128 \<noteq> 0" by (rule_tac ccontr) simp
  then have lo: "128 \<le> unat v" by (simp add: div_eq_0_iff)
  have hi: "unat v < 256" using unsigned_less [of v] by simp
  have "unat (push_bit 1 v) = (2 * unat v) mod 256"
    by (simp add: unat_word_ariths mult.commute)
  with lo hi have "unat (push_bit 1 v) < unat v"
    by (simp add: mod_if) arith
  then show "((n + 1, push_bit 1 v), (n, v)) \<in> measure (\<lambda>(n, v). unat v)"
    by simp
qed

fun simpleMaskLengthFrom :: "int \<Rightarrow> byte list \<Rightarrow> int" where
  "simpleMaskLengthFrom n [] = n"
| "simpleMaskLengthFrom n (v # rest) =
     (if v = 0xff then simpleMaskLengthFrom (n + 8) rest
      else (case countOnes n v of (n', v') \<Rightarrow>
              if v' \<noteq> 0 then - 1
              else if list_ex (\<lambda>b. b \<noteq> 0) rest then - 1
              else n'))"

definition simpleMaskLength :: "IPMask \<Rightarrow> int" where
  "simpleMaskLength m = simpleMaskLengthFrom 0 m"

text \<open>\<^verbatim>\<open>func (m IPMask) Size() (ones, bits int)\<close>\<close>

definition Size :: "IPMask \<Rightarrow> int \<times> int" where
  "Size m =
     (let ones = simpleMaskLength m; bits = int (length m) * 8
      in if ones = - 1 then (0, 0) else (ones, bits))"

section \<open>Hostname matchers (Go's package regexp, as proxy.go uses it)\<close>

text \<open>
  A route's \<^verbatim>\<open>Domains\<close> are compiled regular expressions (\<^verbatim>\<open>*regexp.Regexp\<close>).
  The fragment modelled: a literal character, \<^verbatim>\<open>.\<close> (any character but a newline),
  the empty expression, the anchors \<^verbatim>\<open>^\<close> and \<^verbatim>\<open>$\<close> (begin and end of the
  text), concatenation, alternation and \<^verbatim>\<open>*\<close>.
\<close>

datatype regexp =
    Lit char
  | AnyChar
  | Empty
  | BeginText
  | EndText
  | Cat regexp regexp
  | Alt regexp regexp
  | Star regexp

text \<open>
  \<open>ends re s i\<close> lists the positions where a match of \<open>re\<close> that starts at position
  \<open>i\<close> of \<open>s\<close> can end. An iteration of \<^verbatim>\<open>*\<close> that consumes nothing reaches no
  new position, so each iteration that counts moves forward and \<open>length s\<close> rounds
  are enough.
\<close>

primrec starFrom :: "nat \<Rightarrow> (nat \<Rightarrow> nat list) \<Rightarrow> nat \<Rightarrow> nat list" where
  "starFrom 0 step i = [i]"
| "starFrom (Suc fuel) step i =
     i # concat (map (starFrom fuel step) (filter (\<lambda>j. i < j) (step i)))"

primrec ends :: "regexp \<Rightarrow> string \<Rightarrow> nat \<Rightarrow> nat list" where
  "ends (Lit c) s i = (if i < length s \<and> s ! i = c then [Suc i] else [])"
| "ends AnyChar s i = (if i < length s \<and> s ! i \<noteq> CHR 0x0A then [Suc i] else [])"
| "ends Empty s i = [i]"
| "ends BeginText s i = (if i = 0 then [i] else [])"
| "ends EndText s i = (if i = length s then [i] else [])"
| "ends (Cat a b) s i = concat (map (ends b s) (ends a s i))"
| "ends (Alt a b) s i = ends a s i @ ends b s i"
| "ends (Star a) s i = starFrom (length s) (ends a s) i"

text \<open>
  \<^verbatim>\<open>func (re *Regexp) MatchString(s string) bool\<close> reports whether \<open>s\<close> contains any
  match of \<open>re\<close>: the match may start and end anywhere in \<open>s\<close>.
\<close>

definition MatchString :: "regexp \<Rightarrow> string \<Rightarrow> bool" where
  "MatchString re s = list_ex (\<lambda>i. ends re s i \<noteq> []) [0..<Suc (length s)]"

text \<open>A match of the entire string: it starts at position 0 and ends at the last one.\<close>

definition matchesWhole :: "regexp \<Rightarrow> string \<Rightarrow> bool" where
  "matchesWhole re s = (length s \<in> set (ends re s 0))"

text \<open>The expression of a string of literal characters, and an expression between anchors.\<close>

fun literal :: "string \<Rightarrow> regexp" where
  "literal [] = Empty"
| "literal [c] = Lit c"
| "literal (c # cs) = Cat (Lit c) (literal cs)"

definition anchored :: "regexp \<Rightarrow> regexp" where
  "anchored re = Cat BeginText (Cat re EndText)"

section \<open>The configuration (package config, as proxy.go uses it)\<close>

text \<open>
  Modelled from the spec: the types \<^verbatim>\<open>config.Route\<close> and \<^verbatim>\<open>config.Config\<close> are declared
  in the package config, which is not among the sources. The fields are the ones proxy.go
  reads (\<^verbatim>\<open>Domains\<close>, \<^verbatim>\<open>Backend\<close>, \<^verbatim>\<open>SendProxy\<close>, \<^verbatim>\<open>Allow\<close>, \<^verbatim>\<open>Deny\<close>,
  \<^verbatim>\<open>Routes\<close>), with the types the spec's data model gives them.
\<close>

datatype ProxyProtocol = ProxyNone | ProxyV1 | ProxyV2

record Route =
  Domains :: "regexp list"
  Backend :: string
  SendProxy :: ProxyProtocol
  Allow :: "IPNet list"
  Deny :: "IPNet list"

record Config =
  Routes :: "Route list"

record Proxy =
  Config :: Config

text \<open>A Go error value, by its message.\<close>

datatype error = Error string

section \<open>The route matcher\<close>

text \<open>
  \<^verbatim>\<open>func (p *Proxy) Match(sni string) (*config.Route, error)\<close>: the two nested loops,
  each returning at the first match.
\<close>

fun matchDomains :: "regexp list \<Rightarrow> string \<Rightarrow> bool" where
  "matchDomains [] sni = False"
| "matchDomains (domain # domains) sni =
     (if MatchString domain sni then True else matchDomains domains sni)"

fun matchRoutes :: "Route list \<Rightarrow> string \<Rightarrow> Route option" where
  "matchRoutes [] sni = None"
| "matchRoutes (route # routes) sni =
     (if matchDomains (Domains route) sni then Some route else matchRoutes routes sni)"

definition noRouteError :: "string \<Rightarrow> error" where
  "noRouteError sni = Error (''No route matching the requested domain ('' @ sni @ '')'')"

definition Match :: "Proxy \<Rightarrow> string \<Rightarrow> error + Route" where
  "Match p sni =
     (case matchRoutes (Routes (Config p)) sni of
        Some route \<Rightarrow> Inr route
      | None \<Rightarrow> Inl (noRouteError sni))"

section \<open>The access controller\<close>

text \<open>
  \<^verbatim>\<open>func clientAllowed(route *config.Route, ip net.IP) bool\<close>: the loop over the allow
  list keeps the largest prefix length of a subnet that contains the address in
  \<^verbatim>\<open>cidr\<close>, the loop over the deny list returns false at the first subnet that contains
  the address with a prefix at least that long.
\<close>

fun allowLoop :: "int \<Rightarrow> IPNet list \<Rightarrow> IP \<Rightarrow> int" where
  "allowLoop cidr [] ip = cidr"
| "allowLoop cidr (subnet # rest) ip =
     (if Contains subnet ip then
        (let sz = fst (Size (Mask subnet))
         in if sz > cidr then allowLoop sz rest ip else allowLoop cidr rest ip)
      else allowLoop cidr rest ip)"

fun denyLoop :: "int \<Rightarrow> IPNet list \<Rightarrow> IP \<Rightarrow> bool" where
  "denyLoop cidr [] ip = True"
| "denyLoop cidr (subnet # rest) ip =
     (if Contains subnet ip then
        (let sz = fst (Size (Mask subnet))
         in if sz \<ge> cidr then False else denyLoop cidr rest ip)
      else denyLoop cidr rest ip)"

definition clientAllowed :: "Route \<Rightarrow> IP \<Rightarrow> bool" where
  "clientAllowed route ip =
     (if length (Allow route) = 0 \<and> length (Deny route) = 0 then True
      else (let cidr = allowLoop 0 (Allow route) ip in denyLoop cidr (Deny route) ip))"

text \<open>
  The access rule in the spec's words: the prefix length of a subnet, the best (longest)
  prefix among the allow subnets that contain the address, 0 when none does, and the
  decision.
\<close>

definition prefixLen :: "IPNet \<Rightarrow> int" where
  "prefixLen subnet = fst (Size (Mask subnet))"

definition bestAllowPrefix :: "Route \<Rightarrow> IP \<Rightarrow> int" where
  "bestAllowPrefix route ip =
     Max (set (0 # map prefixLen (filter (\<lambda>subnet. Contains subnet ip) (Allow route))))"

definition allowed_spec :: "Route \<Rightarrow> IP \<Rightarrow> bool" where
  "allowed_spec route ip =
     (if Allow route = [] \<and> Deny route = [] then True
      else if \<exists>subnet \<in> set (Deny route).
                Contains subnet ip \<and> prefixLen subnet \<ge> bestAllowPrefix route ip
        then False
      else True)"

text \<open>
  The matcher's rule in the spec's words: a route matches a hostname when one of its
  matchers does.
\<close>

definition routeMatches :: "string \<Rightarrow> Route \<Rightarrow> bool" where
  "routeMatches sni route = (\<exists>domain \<in> set (Domains route). MatchString domain sni)"

section \<open>Sockets and what a connection does to them\<close>

text \<open>
  The dispatcher works on live sockets. The model passes it the answers the sockets and
  the network give (a \<open>Conn\<close> for the client's socket, a \<open>Net\<close> for the upstream side)
  and returns the calls it makes on them, in the order it makes them: a list of events.
  \<^verbatim>\<open>dispatchConn\<close> and \<^verbatim>\<open>alert\<close> return nothing in Go, so the list is all the model
  returns. A run is one where every blocking call comes back.
\<close>

record TCPAddr =
  addrIP :: IP
  addrPort :: nat

record Conn =
  RemoteAddr :: TCPAddr
  incoming :: "byte list"
  setReadDeadlineErr :: "error option"
  clearReadDeadlineErr :: "error option"
  setWriteDeadlineErr :: "error option"
  writeErr :: "error option"

text \<open>
  \<open>incoming\<close> is what the client sends before the read deadline; the four options are
  the results of \<^verbatim>\<open>SetReadDeadline\<close> with the 3 second deadline, of \<^verbatim>\<open>SetReadDeadline\<close>
  with the zero time, of \<^verbatim>\<open>SetWriteDeadline\<close> and of writing the alert (\<open>None\<close> is a
  nil error).

  \<^verbatim>\<open>proxyHeader\<close>, the encoder of the PROXY protocol header, is not among the sources.
  It is called with the route and the two sockets and writes to the upstream socket; it
  is a parameter here, a field of the network: for a route and the client's address, the
  bytes it writes and its error. \<open>dialErr\<close> is the result of dialing a backend and
  \<open>replayErr\<close> the result of copying the buffer to the upstream socket.
\<close>

record Net =
  dialErr :: "string \<Rightarrow> error option"
  proxyHeader :: "Route \<Rightarrow> TCPAddr \<Rightarrow> byte list \<times> error option"
  replayErr :: "error option"

datatype direction = ClientToUpstream | UpstreamToClient

text \<open>The log lines, by their format strings in proxy.go, with their arguments.\<close>

datatype logline =
    LogReadDeadline error
  | LogError error
  | LogClearDeadline error
  | LogDenied IP string string
  | LogReplayFailed string
  | LogRouting TCPAddr string string
  | LogAlertDeadline error
  | LogAlertWrite error

datatype event =
    SetReadDeadline
  | ReadClient "byte list"
  | ClearReadDeadline
  | SetKeepAlive
  | SetKeepAlivePeriod
  | SetWriteDeadline
  | WriteClient "byte list"
  | Log logline
  | Dial string
  | ProxyHeader "byte list"
  | WriteUpstream "byte list"
  | Go direction
  | Wait
  | CloseUpstream
  | CloseClient
  | Listen string
  | Accept
  | GoDispatch Conn
  | CloseListener

fun isWriteClient :: "event \<Rightarrow> bool" where
  "isWriteClient (WriteClient bs) = True"
| "isWriteClient ev = False"

fun reachesUpstream :: "event \<Rightarrow> bool" where
  "reachesUpstream (Dial backend) = True"
| "reachesUpstream (ProxyHeader bs) = True"
| "reachesUpstream (WriteUpstream bs) = True"
| "reachesUpstream (Go d) = True"
| "reachesUpstream ev = False"

section \<open>The alert emitter\<close>

definition tlsAccessDenied :: byte where "tlsAccessDenied = 49"
definition tlsInternalError :: byte where "tlsInternalError = 80"
definition tlsUnrecognizedName :: byte where "tlsUnrecognizedName = 112"

text \<open>\<^verbatim>\<open>func alert(conn *net.TCPConn, desc byte)\<close>\<close>

definition alert :: "Conn \<Rightarrow> byte \<Rightarrow> event list" where
  "alert conn desc =
     (let message = [21, 3, 0, 0, 2, 2] @ [desc]
      in case setWriteDeadlineErr conn of
           Some err \<Rightarrow> [SetWriteDeadline, Log (LogAlertDeadline err)]
         | None \<Rightarrow>
             SetWriteDeadline # WriteClient message #
               (case writeErr conn of
                  Some err \<Rightarrow> [Log (LogAlertWrite err)]
                | None \<Rightarrow> []))"

section \<open>Sniffing through a tee reader\<close>

text \<open>
  \<^verbatim>\<open>extractSNI\<close> takes an \<^verbatim>\<open>io.Reader\<close> and can do one thing with it: read. A reader's
  client is a value of \<open>'a reading\<close>: it is done with a result, or it asks for up to \<open>n\<close>
  bytes and goes on with the bytes it got. \<open>teeRun\<close> runs it on
  \<^verbatim>\<open>io.TeeReader(conn, &buf)\<close>: each read takes the next bytes of the client's stream
  (fewer than asked for only when the stream ends) and appends them to the buffer.
\<close>

datatype 'a reading = Done 'a | Read nat "byte list \<Rightarrow> 'a reading"

primrec teeRun :: "'a reading \<Rightarrow> byte list \<Rightarrow> byte list \<Rightarrow> 'a \<times> byte list \<times> byte list" where
  "teeRun (Done x) = (\<lambda>stream buf. (x, stream, buf))"
| "teeRun (Read n k) =
     (\<lambda>stream buf. teeRun (k (take n stream)) (drop n stream) (buf @ take n stream))"

text \<open>The bytes of the stream that a run has consumed, given what it left.\<close>

definition consumed :: "byte list \<Rightarrow> byte list \<Rightarrow> byte list" where
  "consumed stream rest = take (length stream - length rest) stream"

section \<open>The connection dispatcher\<close>

text \<open>
  \<^verbatim>\<open>func (p *Proxy) dispatchConn(conn *net.TCPConn)\<close>, from its last step to its first.
  Each step that fails sends an alert, logs and returns. The two deferred calls run when
  the function returns, the later one first: \<^verbatim>\<open>upstream.Close()\<close>, deferred once the dial
  has succeeded, then \<^verbatim>\<open>conn.Close()\<close>.
\<close>

definition relay :: "event list" where
  "relay = [Go ClientToUpstream, Go UpstreamToClient, Wait]"

definition replay :: "Conn \<Rightarrow> Net \<Rightarrow> Route \<Rightarrow> string \<Rightarrow> byte list \<Rightarrow> event list" where
  "replay conn net route sni buf =
     WriteUpstream buf #
       (case replayErr net of
          Some err \<Rightarrow> alert conn tlsInternalError @ [Log (LogReplayFailed (Backend route))]
        | None \<Rightarrow> Log (LogRouting (RemoteAddr conn) sni (Backend route)) # relay)"

definition dialed :: "Conn \<Rightarrow> Net \<Rightarrow> Route \<Rightarrow> string \<Rightarrow> byte list \<Rightarrow> event list" where
  "dialed conn net route sni buf =
     (if SendProxy route \<noteq> ProxyNone then
        (case proxyHeader net route (RemoteAddr conn) of
           (header, result) \<Rightarrow>
             ProxyHeader header #
               (case result of
                  Some err \<Rightarrow> alert conn tlsInternalError @ [Log (LogError err)]
                | None \<Rightarrow> replay conn net route sni buf))
      else replay conn net route sni buf)
     @ [CloseUpstream]"

definition routed :: "Proxy \<Rightarrow> Conn \<Rightarrow> Net \<Rightarrow> string \<Rightarrow> byte list \<Rightarrow> event list" where
  "routed p conn net sni buf =
     (case Match p sni of
        Inl err \<Rightarrow> alert conn tlsUnrecognizedName @ [Log (LogError err)]
      | Inr route \<Rightarrow>
          (let client = addrIP (RemoteAddr conn)
           in if \<not> clientAllowed route client then
                alert conn tlsAccessDenied @ [Log (LogDenied client sni (Backend route))]
              else
                Dial (Backend route) #
                  (case dialErr net (Backend route) of
                     Some err \<Rightarrow> alert conn tlsInternalError @ [Log (LogError err)]
                   | None \<Rightarrow> dialed conn net route sni buf)))"

definition dispatchConn ::
    "(error + string) reading \<Rightarrow> Proxy \<Rightarrow> Conn \<Rightarrow> Net \<Rightarrow> event list" where
  "dispatchConn extractor p conn net =
     (case setReadDeadlineErr conn of
        Some err \<Rightarrow>
          SetReadDeadline # alert conn tlsInternalError @ [Log (LogReadDeadline err)]
      | None \<Rightarrow>
          SetReadDeadline #
            (case teeRun extractor (incoming conn) [] of
               (result, rest, buf) \<Rightarrow>
                 ReadClient (consumed (incoming conn) rest) #
                   (case result of
                      Inl err \<Rightarrow> alert conn tlsInternalError @ [Log (LogError err)]
                    | Inr sni \<Rightarrow>
                        (case clearReadDeadlineErr conn of
                           Some err \<Rightarrow>
                             ClearReadDeadline #
                               alert conn tlsInternalError @ [Log (LogClearDeadline err)]
                         | None \<Rightarrow>
                             [ClearReadDeadline, SetKeepAlive, SetKeepAlivePeriod]
                               @ routed p conn net sni buf))))
     @ [CloseClient]"

text \<open>
  The first argument stands for \<^verbatim>\<open>extractSNI\<close>, whose code is not among the sources:
  what is proved of \<open>dispatchConn\<close> holds for every extractor.
\<close>

section \<open>The listener\<close>

text \<open>
  \<^verbatim>\<open>func (p *Proxy) ListenAndServe(bind string) error\<close>. The listening socket answers
  \<^verbatim>\<open>net.Listen\<close> once and then each \<^verbatim>\<open>Accept\<close> in turn, with an error or a connection.
  The loop has no exit but an error of \<^verbatim>\<open>Accept\<close>: the result \<open>None\<close> says that the
  function has not returned, having got every answer listed and no error.
\<close>

record Listener =
  listenErr :: "error option"
  accepts :: "(error + Conn) list"

fun acceptLoop :: "(error + Conn) list \<Rightarrow> event list \<times> error option" where
  "acceptLoop [] = ([], None)"
| "acceptLoop (Inl err # later) = ([Accept], Some err)"
| "acceptLoop (Inr conn # later) =
     (case acceptLoop later of (evs, result) \<Rightarrow> (Accept # GoDispatch conn # evs, result))"

definition ListenAndServe :: "Proxy \<Rightarrow> string \<Rightarrow> Listener \<Rightarrow> event list \<times> error option" where
  "ListenAndServe p bind l =
     (case listenErr l of
        Some err \<Rightarrow> ([Listen bind], Some err)
      | None \<Rightarrow>
          (case acceptLoop (accepts l) of
             (evs, Some err) \<Rightarrow> (Listen bind # evs @ [CloseListener], Some err)
           | (evs, None) \<Rightarrow> (Listen bind # evs, None)))"

section \<open>Configurations used as examples\<close>

definition plainRoute :: "regexp list \<Rightarrow> string \<Rightarrow> Route" where
  "plainRoute domains backend =
     \<lparr>Domains = domains, Backend = backend, SendProxy = ProxyNone, Allow = [], Deny = []\<rparr>"

definition proxyOf :: "Route list \<Rightarrow> Proxy" where
  "proxyOf routes = \<lparr>Config = \<lparr>Routes = routes\<rparr>\<rparr>"

section \<open>Reading a trace\<close>

text \<open>
  The events an alert can leave, the events that start a relay task, the writes of the
  replay, and the tee buffer a connection has once the sniffing is over.
\<close>

fun alertEvent :: "event \<Rightarrow> bool" where
  "alertEvent SetWriteDeadline = True"
| "alertEvent (WriteClient bs) = True"
| "alertEvent (Log line) = True"
| "alertEvent ev = False"

fun isGo :: "event \<Rightarrow> bool" where
  "isGo (Go d) = True"
| "isGo ev = False"

fun isWriteUpstream :: "event \<Rightarrow> bool" where
  "isWriteUpstream (WriteUpstream bs) = True"
| "isWriteUpstream ev = False"

definition teeBuffer :: "(error + string) reading \<Rightarrow> Conn \<Rightarrow> byte list" where
  "teeBuffer extractor conn = snd (snd (teeRun extractor (incoming conn) []))"

section \<open>The SNI extractor\<close>

text \<open>
  Modelled from the spec: \<^verbatim>\<open>extractSNI\<close> is not among the sources. The spec's contract:
  from a byte source at the start of a TLS client handshake, consume the record header
  (content type, version, length) and the one handshake record, and return the hostname
  of the \<^verbatim>\<open>server_name\<close> extension (type 0x0000, a \<^verbatim>\<open>server_name\<close> list, a \<^verbatim>\<open>host_name\<close>
  entry of type 0); numbers are big-endian; fail when the record is not a handshake
  record, the message is not a ClientHello, the extensions are malformed or a length runs
  past the bytes that are left, or there is no \<^verbatim>\<open>server_name\<close> extension; read no
  more than the one record.
\<close>

definition be :: "byte list \<Rightarrow> nat" where
  "be bs = foldl (\<lambda>acc b. acc * 256 + unat b) 0 bs"

definition vec :: "nat \<Rightarrow> byte list \<Rightarrow> (byte list \<times> byte list) option" where
  "vec k bs =
     (if length bs < k then None
      else (let n = be (take k bs); rest = drop k bs
            in if length rest < n then None else Some (take n rest, drop n rest)))"

definition hostnameOf :: "byte list \<Rightarrow> string" where
  "hostnameOf bs = map (\<lambda>b. char_of (unat b)) bs"

function parseNames :: "byte list \<Rightarrow> error + string" where
  "parseNames bs =
     (if length bs < 3 then Inl (Error ''no host_name entry in the server_name list'')
      else (let nameType = bs ! 0; n = be (take 2 (drop 1 bs)); rest = drop 3 bs
            in if length rest < n then Inl (Error ''host_name length overflow'')
               else if nameType = 0 then Inr (hostnameOf (take n rest))
               else parseNames (drop n rest)))"
  by pat_completeness auto
termination
  by (relation "measure length") auto

declare parseNames.simps [simp del]

definition parseServerName :: "byte list \<Rightarrow> error + string" where
  "parseServerName ext =
     (case vec 2 ext of
        None \<Rightarrow> Inl (Error ''malformed server_name extension'')
      | Some (names, rest) \<Rightarrow> parseNames names)"

function parseExtensions :: "byte list \<Rightarrow> error + string" where
  "parseExtensions bs =
     (if bs = [] then Inl (Error ''no server_name extension'')
      else if length bs < 4 then Inl (Error ''malformed extensions'')
      else (let extType = be (take 2 bs); n = be (take 2 (drop 2 bs)); rest = drop 4 bs
            in if length rest < n then Inl (Error ''extension length overflow'')
               else if extType = 0 then parseServerName (take n rest)
               else parseExtensions (drop n rest)))"
  by pat_completeness auto
termination
  by (relation "measure length") auto

declare parseExtensions.simps [simp del]

definition parseHelloBody :: "byte list \<Rightarrow> error + string" where
  "parseHelloBody body =
     (if length body < 34 then Inl (Error ''short ClientHello'')
      else case vec 1 (drop 34 body) of
        None \<Rightarrow> Inl (Error ''malformed session id'')
      | Some (sessionID, r1) \<Rightarrow>
          (case vec 2 r1 of
             None \<Rightarrow> Inl (Error ''malformed cipher suites'')
           | Some (cipherSuites, r2) \<Rightarrow>
               (case vec 1 r2 of
                  None \<Rightarrow> Inl (Error ''malformed compression methods'')
                | Some (compression, r3) \<Rightarrow>
                    (case vec 2 r3 of
                       None \<Rightarrow> Inl (Error ''malformed extensions'')
                     | Some (extensions, r4) \<Rightarrow> parseExtensions extensions))))"

definition parseHandshake :: "byte list \<Rightarrow> error + string" where
  "parseHandshake hs =
     (if length hs < 4 then Inl (Error ''short handshake message'')
      else if hs ! 0 \<noteq> 1 then Inl (Error ''not a ClientHello'')
      else (let n = be (take 3 (drop 1 hs)); body = drop 4 hs
            in if length body < n then Inl (Error ''truncated ClientHello'')
               else parseHelloBody (take n body)))"

definition extractSNI :: "(error + string) reading" where
  "extractSNI =
     Read 5 (\<lambda>header.
       if length header < 5 then Done (Inl (Error ''short record header''))
       else if header ! 0 \<noteq> 22 then Done (Inl (Error ''not a handshake record''))
       else Read (be (drop 3 header)) (\<lambda>fragment.
         if length fragment < be (drop 3 header) then Done (Inl (Error ''truncated record''))
         else Done (parseHandshake fragment)))"

section \<open>ClientHello messages on the wire\<close>

text \<open>
  A ClientHello with a \<^verbatim>\<open>server_name\<close> extension, and its bytes in a TLS record: the
  record header, the handshake header and the fields of the message, each vector after
  its length. The extensions before the \<^verbatim>\<open>server_name\<close> extension are of other types.
\<close>

definition enc1 :: "nat \<Rightarrow> byte list" where "enc1 n = [of_nat n]"
definition enc2 :: "nat \<Rightarrow> byte list" where "enc2 n = [of_nat (n div 256), of_nat n]"
definition enc3 :: "nat \<Rightarrow> byte list" where
  "enc3 n = [of_nat (n div 65536), of_nat (n div 256), of_nat n]"

definition bytesOf :: "string \<Rightarrow> byte list" where
  "bytesOf s = map (\<lambda>c. of_nat (of_char c)) s"

record ClientHello =
  helloVersion :: "byte list"
  helloRandom :: "byte list"
  sessionID :: "byte list"
  cipherSuites :: "byte list"
  compressionMethods :: "byte list"
  extensionsBefore :: "(nat \<times> byte list) list"
  serverName :: string
  extensionsAfter :: "(nat \<times> byte list) list"

definition encodeExt :: "nat \<times> byte list \<Rightarrow> byte list" where
  "encodeExt e = enc2 (fst e) @ enc2 (length (snd e)) @ snd e"

definition serverNameList :: "string \<Rightarrow> byte list" where
  "serverNameList name = [0] @ enc2 (length name) @ bytesOf name"

definition serverNameExt :: "string \<Rightarrow> byte list" where
  "serverNameExt name =
     encodeExt (0, enc2 (length (serverNameList name)) @ serverNameList name)"

definition extensionBlock :: "ClientHello \<Rightarrow> byte list" where
  "extensionBlock ch =
     concat (map encodeExt (extensionsBefore ch)) @ serverNameExt (serverName ch)
       @ concat (map encodeExt (extensionsAfter ch))"

definition helloBody :: "ClientHello \<Rightarrow> byte list" where
  "helloBody ch =
     helloVersion ch @ helloRandom ch
       @ enc1 (length (sessionID ch)) @ sessionID ch
       @ enc2 (length (cipherSuites ch)) @ cipherSuites ch
       @ enc1 (length (compressionMethods ch)) @ compressionMethods ch
       @ enc2 (length (extensionBlock ch)) @ extensionBlock ch"

definition handshake :: "ClientHello \<Rightarrow> byte list" where
  "handshake ch = [1] @ enc3 (length (helloBody ch)) @ helloBody ch"

definition tlsRecord :: "byte list \<Rightarrow> ClientHello \<Rightarrow> byte list" where
  "tlsRecord version ch = [22] @ version @ enc2 (length (handshake ch)) @ handshake ch"

definition wellFormed :: "byte list \<Rightarrow> ClientHello \<Rightarrow> bool" where
  "wellFormed version ch \<longleftrightarrow>
     length version = 2 \<and> length (helloVersion ch) = 2 \<and> length (helloRandom ch) = 32
     \<and> length (sessionID ch) < 256 \<and> length (cipherSuites ch) < 65536
     \<and> length (compressionMethods ch) < 256
     \<and> list_all (\<lambda>e. 0 < fst e \<and> fst e < 65536 \<and> length (snd e) < 65536) (extensionsBefore ch)
     \<and> length (extensionBlock ch) < 65536
     \<and> length (handshake ch) < 65536"

section \<open>More examples: a connection, a network, a route with a filter, a ClientHello\<close>

definition exampleConn :: "IP \<Rightarrow> byte list \<Rightarrow> Conn" where
  "exampleConn ip bytes =
     \<lparr>RemoteAddr = \<lparr>addrIP = ip, addrPort = 50000\<rparr>, incoming = bytes,
      setReadDeadlineErr = None, clearReadDeadlineErr = None,
      setWriteDeadlineErr = None, writeErr = None\<rparr>"

definition exampleNet :: "error option \<Rightarrow> Net" where
  "exampleNet replayResult =
     \<lparr>dialErr = (\<lambda>backend. None), proxyHeader = (\<lambda>route addr. ([], None)),
      replayErr = replayResult\<rparr>"

definition fixedExtractor :: "nat \<Rightarrow> string \<Rightarrow> (error + string) reading" where
  "fixedExtractor n sni = Read n (\<lambda>bytes. Done (Inr sni))"

definition guardedRoute :: Route where
  "guardedRoute =
     \<lparr>Domains = [anchored (literal ''a.com'')], Backend = ''10.0.0.1:443'',
      SendProxy = ProxyNone,
      Allow = [\<lparr>IP = [10, 0, 0, 0], Mask = [255, 0, 0, 0]\<rparr>],
      Deny = [\<lparr>IP = [10, 1, 0, 0], Mask = [255, 255, 0, 0]\<rparr>]\<rparr>"

definition exampleHello :: ClientHello where
  "exampleHello =
     \<lparr>helloVersion = [3, 3], helloRandom = replicate 32 7, sessionID = [],
      cipherSuites = [0x13, 0x01, 0x13, 0x02], compressionMethods = [0],
      extensionsBefore = [(0x0a, [0, 2, 0, 0x1d])], serverName = ''a.com'',
      extensionsAfter = [(0x2b, [2, 3, 4])]\<rparr>"

section \<open>Properties of the access controller\<close>

lemma allowLoop_fold:
  "allowLoop cidr xs ip =
     fold max (map prefixLen (filter (\<lambda>subnet. Contains subnet ip) xs)) cidr"
  by (induction xs arbitrary: cidr) (auto simp add: prefixLen_def Let_def max_def)

lemma allowLoop_Max:
  "allowLoop cidr xs ip =
     Max (set (cidr # map prefixLen (filter (\<lambda>subnet. Contains subnet ip) xs)))"
  by (simp only: allowLoop_fold Max.set_eq_fold)

lemma denyLoop_iff:
  "denyLoop cidr xs ip =
     (\<not> (\<exists>subnet \<in> set xs. Contains subnet ip \<and> prefixLen subnet \<ge> cidr))"
  by (induction xs) (auto simp add: prefixLen_def Let_def)

lemma clientAllowed_refines: "clientAllowed route ip = allowed_spec route ip"
  unfolding clientAllowed_def allowed_spec_def bestAllowPrefix_def Let_def
  by (simp only: allowLoop_Max denyLoop_iff length_0_conv) simp

lemma Size_slash8: "Size [255, 0, 0, 0] = (8, 32)"
  by (simp add: Size_def simpleMaskLength_def)

lemma Size_slash16: "Size [255, 255, 0, 0] = (16, 32)"
  by (simp add: Size_def simpleMaskLength_def)

lemma and_0xff: "(a :: byte) AND 255 = a"
proof -
  have "(255 :: byte) = - 1" by simp
  then show ?thesis by (simp only: and.right_neutral)
qed

lemma Contains_10_8:
  "Contains \<lparr>IP = [10, 0, 0, 0], Mask = [255, 0, 0, 0]\<rparr> [a, b, c, d] = (a = 10)"
  by (simp add: Contains_def networkNumberAndMask_def To4_def upt_rec and_0xff)

lemma Contains_10_1_16:
  "Contains \<lparr>IP = [10, 1, 0, 0], Mask = [255, 255, 0, 0]\<rparr> [a, b, c, d] = (a = 10 \<and> b = 1)"
  by (simp add: Contains_def networkNumberAndMask_def To4_def upt_rec and_0xff)

text \<open>
  C1. For every route and client address, \<open>clientAllowed\<close> permits the client when the
  allow and the deny list are both empty; otherwise it takes the longest prefix length
  among the allow subnets that contain the address (0 when none does), denies when some
  deny subnet that contains the address has a prefix length greater than or equal to it,
  and permits otherwise: the loops of the code compute the rule \<open>allowed_spec\<close> written
  from the spec's words. In particular allow 10.0.0.0/8 with deny 10.1.0.0/16 denies
  10.1.2.3, allow 10.0.0.0/8 with deny 10.0.0.0/8 denies 10.0.0.1, and empty lists permit
  every address.
\<close>

theorem clientAllowed_longest_prefix:
  "clientAllowed route ip = allowed_spec route ip
   \<and> (Allow route = [] \<and> Deny route = [] \<longrightarrow> clientAllowed route ip)
   \<and> \<not> clientAllowed
         (route\<lparr>Allow := [\<lparr>IP = [10, 0, 0, 0], Mask = [255, 0, 0, 0]\<rparr>],
                Deny := [\<lparr>IP = [10, 1, 0, 0], Mask = [255, 255, 0, 0]\<rparr>]\<rparr>)
         [10, 1, 2, 3]
   \<and> \<not> clientAllowed
         (route\<lparr>Allow := [\<lparr>IP = [10, 0, 0, 0], Mask = [255, 0, 0, 0]\<rparr>],
                Deny := [\<lparr>IP = [10, 0, 0, 0], Mask = [255, 0, 0, 0]\<rparr>]\<rparr>)
         [10, 0, 0, 1]"
proof (intro conjI)
  show "clientAllowed route ip = allowed_spec route ip"
    by (rule clientAllowed_refines)
  show "Allow route = [] \<and> Deny route = [] \<longrightarrow> clientAllowed route ip"
    by (simp add: clientAllowed_def)
  show "\<not> clientAllowed
         (route\<lparr>Allow := [\<lparr>IP = [10, 0, 0, 0], Mask = [255, 0, 0, 0]\<rparr>],
                Deny := [\<lparr>IP = [10, 1, 0, 0], Mask = [255, 255, 0, 0]\<rparr>]\<rparr>)
         [10, 1, 2, 3]"
    by (simp add: clientAllowed_def Contains_10_8 Contains_10_1_16 Size_slash8 Size_slash16)
  show "\<not> clientAllowed
         (route\<lparr>Allow := [\<lparr>IP = [10, 0, 0, 0], Mask = [255, 0, 0, 0]\<rparr>],
                Deny := [\<lparr>IP = [10, 0, 0, 0], Mask = [255, 0, 0, 0]\<rparr>]\<rparr>)
         [10, 0, 0, 1]"
    by (simp add: clientAllowed_def Contains_10_8 Size_slash8)
qed

text \<open>
  The rule at a route with no filter and the address 192.168.1.1, in its 16-byte form:
  the hypothesis of the second part holds there, and the client is permitted.
\<close>

theorem clientAllowed_longest_prefix_witness:
  "Allow \<lparr>Domains = [], Backend = ''127.0.0.1:9000'', SendProxy = ProxyNone,
          Allow = [], Deny = []\<rparr> = []
   \<and> Deny \<lparr>Domains = [], Backend = ''127.0.0.1:9000'', SendProxy = ProxyNone,
           Allow = [], Deny = []\<rparr> = []
   \<and> clientAllowed
        \<lparr>Domains = [], Backend = ''127.0.0.1:9000'', SendProxy = ProxyNone,
         Allow = [], Deny = []\<rparr>
        [0, 0, 0, 0, 0, 0, 0, 0, 0, 0, 255, 255, 192, 168, 1, 1]
   \<and> allowed_spec
        \<lparr>Domains = [], Backend = ''127.0.0.1:9000'', SendProxy = ProxyNone,
         Allow = [], Deny = []\<rparr>
        [0, 0, 0, 0, 0, 0, 0, 0, 0, 0, 255, 255, 192, 168, 1, 1]"
  using clientAllowed_longest_prefix
    [of "\<lparr>Domains = [], Backend = ''127.0.0.1:9000'', SendProxy = ProxyNone,
          Allow = [], Deny = []\<rparr>"
        "[0, 0, 0, 0, 0, 0, 0, 0, 0, 0, 255, 255, 192, 168, 1, 1]"]
  by auto

text \<open>
  C10. For every route whose allow list is not empty and whose deny list is empty,
  \<open>clientAllowed\<close> returns true for every client address, also one that no allow subnet
  contains: an allow list alone blocks no client. Access is denied only when a deny
  subnet contains the address with a prefix length at least the best allow prefix.
\<close>

theorem allow_list_alone_never_blocks:
  "(Allow route \<noteq> [] \<and> Deny route = [] \<longrightarrow> clientAllowed route ip)
   \<and> (\<not> clientAllowed route ip \<longrightarrow>
        (\<exists>subnet \<in> set (Deny route).
            Contains subnet ip \<and> prefixLen subnet \<ge> bestAllowPrefix route ip))"
proof (intro conjI impI)
  assume "Allow route \<noteq> [] \<and> Deny route = []"
  then show "clientAllowed route ip"
    by (simp add: clientAllowed_def)
next
  assume "\<not> clientAllowed route ip"
  then have "\<not> allowed_spec route ip"
    using clientAllowed_refines [of route ip] by simp
  then show "\<exists>subnet \<in> set (Deny route).
      Contains subnet ip \<and> prefixLen subnet \<ge> bestAllowPrefix route ip"
    by (simp add: allowed_spec_def split: if_splits)
qed

text \<open>
  A route that allows 10.0.0.0/8 and denies nothing permits 192.168.1.1, which its
  allow subnet does not contain.
\<close>

theorem allow_list_alone_never_blocks_witness:
  "Allow \<lparr>Domains = [], Backend = ''127.0.0.1:9000'', SendProxy = ProxyNone,
          Allow = [\<lparr>IP = [10, 0, 0, 0], Mask = [255, 0, 0, 0]\<rparr>], Deny = []\<rparr> \<noteq> []
   \<and> Deny \<lparr>Domains = [], Backend = ''127.0.0.1:9000'', SendProxy = ProxyNone,
           Allow = [\<lparr>IP = [10, 0, 0, 0], Mask = [255, 0, 0, 0]\<rparr>], Deny = []\<rparr> = []
   \<and> \<not> Contains \<lparr>IP = [10, 0, 0, 0], Mask = [255, 0, 0, 0]\<rparr> [192, 168, 1, 1]
   \<and> clientAllowed
        \<lparr>Domains = [], Backend = ''127.0.0.1:9000'', SendProxy = ProxyNone,
         Allow = [\<lparr>IP = [10, 0, 0, 0], Mask = [255, 0, 0, 0]\<rparr>], Deny = []\<rparr>
        [192, 168, 1, 1]"
  using allow_list_alone_never_blocks
    [of "\<lparr>Domains = [], Backend = ''127.0.0.1:9000'', SendProxy = ProxyNone,
          Allow = [\<lparr>IP = [10, 0, 0, 0], Mask = [255, 0, 0, 0]\<rparr>], Deny = []\<rparr>"
        "[192, 168, 1, 1]"]
  by (simp add: Contains_10_8)

section \<open>Properties of the route matcher\<close>

lemma matchDomains_iff: "matchDomains domains sni = (\<exists>domain \<in> set domains. MatchString domain sni)"
  by (induction domains) auto

lemma matchRoutes_find: "matchRoutes routes sni = List.find (routeMatches sni) routes"
  by (induction routes) (simp_all add: matchDomains_iff routeMatches_def)

lemma Match_find:
  "Match p sni =
     (case List.find (routeMatches sni) (Routes (Config p)) of
        Some route \<Rightarrow> Inr route
      | None \<Rightarrow> Inl (noRouteError sni))"
  by (simp add: Match_def matchRoutes_find)

lemma ends_anchored:
  "ends (anchored re) s i \<noteq> [] \<longleftrightarrow> i = 0 \<and> matchesWhole re s"
  by (auto simp add: anchored_def matchesWhole_def)

lemma MatchString_anchored: "MatchString (anchored re) s = matchesWhole re s"
  by (auto simp add: MatchString_def list_ex_iff ends_anchored)

lemma find_first:
  "routes = before @ route # after \<Longrightarrow> \<forall>q \<in> set before. \<not> P q \<Longrightarrow> P route \<Longrightarrow>
   List.find P routes = Some route"
  by (induction before arbitrary: routes) auto


lemma MatchString_any: "MatchString (anchored (Star AnyChar)) ''a.com''"
  by (simp add: MatchString_anchored matchesWhole_def)

text \<open>
  C5. For every configuration and hostname, \<open>Match\<close> tries the routes in declaration
  order and returns the first route one of whose matchers matches the hostname, with no
  preference for a more specific hostname: a route that matches, declared after routes
  that do not, is the one returned, whatever follows it. With a route whose pattern
  matches a.com declared before a route whose pattern matches everything, a.com is given
  the first. When no route matches, \<open>Match\<close> fails with an error whose message holds the
  requested hostname.
\<close>

theorem Match_first_route_in_order:
  "Match p sni =
     (case List.find (routeMatches sni) (Routes (Config p)) of
        Some route \<Rightarrow> Inr route
      | None \<Rightarrow> Inl (noRouteError sni))
   \<and> (\<forall>before route after.
         Routes (Config p) = before @ route # after
         \<and> (\<forall>q \<in> set before. \<not> routeMatches sni q) \<and> routeMatches sni route
         \<longrightarrow> Match p sni = Inr route)
   \<and> ((\<forall>q \<in> set (Routes (Config p)). \<not> routeMatches sni q)
        \<longrightarrow> Match p sni = Inl (Error (''No route matching the requested domain ('' @ sni @ '')'')))
   \<and> Match (proxyOf [plainRoute [anchored (literal ''a.com'')] ''10.0.0.1:443'',
                      plainRoute [anchored (Star AnyChar)] ''10.0.0.2:443'']) ''a.com''
       = Inr (plainRoute [anchored (literal ''a.com'')] ''10.0.0.1:443'')
   \<and> routeMatches ''a.com'' (plainRoute [anchored (Star AnyChar)] ''10.0.0.2:443'')"
proof (intro conjI allI impI)
  show "Match p sni =
     (case List.find (routeMatches sni) (Routes (Config p)) of
        Some route \<Rightarrow> Inr route
      | None \<Rightarrow> Inl (noRouteError sni))"
    by (rule Match_find)
next
  fix before route after
  assume "Routes (Config p) = before @ route # after
         \<and> (\<forall>q \<in> set before. \<not> routeMatches sni q) \<and> routeMatches sni route"
  then have "List.find (routeMatches sni) (Routes (Config p)) = Some route"
    by (intro find_first [of _ before route after]) simp_all
  then show "Match p sni = Inr route"
    by (simp add: Match_find)
next
  assume "\<forall>q \<in> set (Routes (Config p)). \<not> routeMatches sni q"
  then have "List.find (routeMatches sni) (Routes (Config p)) = None"
    by (simp add: find_None_iff)
  then show "Match p sni = Inl (Error (''No route matching the requested domain ('' @ sni @ '')''))"
    by (simp add: Match_find noRouteError_def)
next
  show "Match (proxyOf [plainRoute [anchored (literal ''a.com'')] ''10.0.0.1:443'',
                      plainRoute [anchored (Star AnyChar)] ''10.0.0.2:443'']) ''a.com''
       = Inr (plainRoute [anchored (literal ''a.com'')] ''10.0.0.1:443'')"
    by (simp add: Match_def proxyOf_def plainRoute_def MatchString_anchored matchesWhole_def)
next
  show "routeMatches ''a.com'' (plainRoute [anchored (Star AnyChar)] ''10.0.0.2:443'')"
    by (simp add: routeMatches_def plainRoute_def MatchString_any)
qed

text \<open>
  The second and third parts at b.org: the route for a.com does not match it and the
  route that matches everything, declared after it, is returned; with the route for
  a.com alone the error names b.org. With the two routes in the other order, a.com is
  given the route that matches everything: the order decides, not the pattern.
\<close>

theorem Match_first_route_in_order_witness:
  "\<not> routeMatches ''b.org'' (plainRoute [anchored (literal ''a.com'')] ''10.0.0.1:443'')
   \<and> routeMatches ''b.org'' (plainRoute [anchored (Star AnyChar)] ''10.0.0.2:443'')
   \<and> Match (proxyOf [plainRoute [anchored (literal ''a.com'')] ''10.0.0.1:443'',
                      plainRoute [anchored (Star AnyChar)] ''10.0.0.2:443'']) ''b.org''
       = Inr (plainRoute [anchored (Star AnyChar)] ''10.0.0.2:443'')
   \<and> Match (proxyOf [plainRoute [anchored (literal ''a.com'')] ''10.0.0.1:443'']) ''b.org''
       = Inl (Error ''No route matching the requested domain (b.org)'')
   \<and> Match (proxyOf [plainRoute [anchored (Star AnyChar)] ''10.0.0.2:443'',
                      plainRoute [anchored (literal ''a.com'')] ''10.0.0.1:443'']) ''a.com''
       = Inr (plainRoute [anchored (Star AnyChar)] ''10.0.0.2:443'')"
proof -
  let ?r1 = "plainRoute [anchored (literal ''a.com'')] ''10.0.0.1:443''"
  let ?r2 = "plainRoute [anchored (Star AnyChar)] ''10.0.0.2:443''"
  have n1: "\<not> routeMatches ''b.org'' ?r1"
    by (simp add: routeMatches_def plainRoute_def MatchString_anchored matchesWhole_def)
  have m2: "routeMatches ''b.org'' ?r2"
    by (simp add: routeMatches_def plainRoute_def MatchString_anchored matchesWhole_def)
  have a: "Match (proxyOf [?r1, ?r2]) ''b.org'' = Inr ?r2"
    using Match_first_route_in_order [of "proxyOf [?r1, ?r2]" "''b.org''", THEN conjunct2, THEN conjunct1,
        rule_format, of "[?r1]" ?r2 "[]"] n1 m2
    by (simp add: proxyOf_def)
  have b: "Match (proxyOf [?r1]) ''b.org'' = Inl (Error ''No route matching the requested domain (b.org)'')"
    using Match_first_route_in_order [of "proxyOf [?r1]" "''b.org''", THEN conjunct2, THEN conjunct2, THEN conjunct1] n1
    by (simp add: proxyOf_def)
  have c: "Match (proxyOf [?r2, ?r1]) ''a.com'' = Inr ?r2"
    using Match_first_route_in_order [of "proxyOf [?r2, ?r1]" "''a.com''", THEN conjunct2, THEN conjunct1,
        rule_format, of "[]" ?r2 "[?r1]"] MatchString_any
    by (simp add: proxyOf_def routeMatches_def plainRoute_def)
  from n1 m2 a b c show ?thesis by simp
qed




section \<open>The examples, field by field\<close>

lemma exampleConn_fields [simp]:
  "RemoteAddr (exampleConn ip bytes) = \<lparr>addrIP = ip, addrPort = 50000\<rparr>"
  "incoming (exampleConn ip bytes) = bytes"
  "setReadDeadlineErr (exampleConn ip bytes) = None"
  "clearReadDeadlineErr (exampleConn ip bytes) = None"
  "setWriteDeadlineErr (exampleConn ip bytes) = None"
  "writeErr (exampleConn ip bytes) = None"
  by (simp_all add: exampleConn_def)

lemma exampleNet_fields [simp]:
  "dialErr (exampleNet replayResult) backend = None"
  "proxyHeader (exampleNet replayResult) route addr = ([], None)"
  "replayErr (exampleNet replayResult) = replayResult"
  by (simp_all add: exampleNet_def)

lemma guardedRoute_fields [simp]:
  "Backend guardedRoute = ''10.0.0.1:443''"
  "SendProxy guardedRoute = ProxyNone"
  by (simp_all add: guardedRoute_def)

lemma fixedExtractor_run [simp]:
  "teeRun (fixedExtractor n sni) stream buf = (Inr sni, drop n stream, buf @ take n stream)"
  by (simp add: fixedExtractor_def)

section \<open>Properties of the alert emitter\<close>

lemma alert_events: "ev \<in> set (alert conn desc) \<Longrightarrow> alertEvent ev"
  by (auto simp add: alert_def split: option.splits)

lemma alert_not_upstream: "ev \<in> set (alert conn desc) \<Longrightarrow> \<not> reachesUpstream ev"
  by (auto simp add: alert_def split: option.splits)


lemma alertEvent_cases:
  "alertEvent ev \<Longrightarrow> \<not> isGo ev \<and> \<not> isWriteUpstream ev \<and> ev \<noteq> CloseClient \<and> ev \<noteq> CloseUpstream
     \<and> (\<forall>b. ev \<noteq> Dial b) \<and> (\<forall>b. ev \<noteq> ReadClient b)"
  by (cases ev) auto

lemmas alert_simps = alert_events [THEN alertEvent_cases]

text \<open>
  C7. For every one-byte description code, what the alert emitter writes to the
  client's socket is exactly the 7-byte record 0x15, 0x03, 0x00, 0x00, 0x02, 0x02,
  description: content type alert (21), version 3.0, length 2, level fatal (2), then the
  description byte. It writes the record once, after setting the write deadline. A
  failure is logged and goes no further: when the write fails the log line follows the
  write, when the deadline cannot be set the log line is all that follows, and in every
  case the emitter only sets the deadline, writes to the client and logs.
\<close>

theorem alert_writes_fatal_record:
  "(\<forall>ev \<in> set (alert conn desc).
      isWriteClient ev \<longrightarrow> ev = WriteClient [0x15, 0x03, 0x00, 0x00, 0x02, 0x02, desc])
   \<and> (setWriteDeadlineErr conn = None \<longrightarrow>
        filter isWriteClient (alert conn desc)
          = [WriteClient [0x15, 0x03, 0x00, 0x00, 0x02, 0x02, desc]])
   \<and> (setWriteDeadlineErr conn = None \<and> writeErr conn = None \<longrightarrow>
        alert conn desc
          = [SetWriteDeadline, WriteClient [0x15, 0x03, 0x00, 0x00, 0x02, 0x02, desc]])
   \<and> (\<forall>err. setWriteDeadlineErr conn = None \<and> writeErr conn = Some err \<longrightarrow>
        alert conn desc
          = [SetWriteDeadline, WriteClient [0x15, 0x03, 0x00, 0x00, 0x02, 0x02, desc],
             Log (LogAlertWrite err)])
   \<and> (\<forall>err. setWriteDeadlineErr conn = Some err \<longrightarrow>
        alert conn desc = [SetWriteDeadline, Log (LogAlertDeadline err)])
   \<and> (\<forall>ev \<in> set (alert conn desc). alertEvent ev)"
  by (auto simp add: alert_def split: option.splits)

text \<open>
  The emitter on a socket that takes the deadline and the write, with the description
  80, on one whose write fails, and on one that refuses the deadline.
\<close>

theorem alert_writes_fatal_record_witness:
  "alert (exampleConn [10, 1, 2, 3] []) 80
     = [SetWriteDeadline, WriteClient [0x15, 0x03, 0x00, 0x00, 0x02, 0x02, 80]]
   \<and> alert ((exampleConn [10, 1, 2, 3] [])\<lparr>writeErr := Some (Error ''broken pipe'')\<rparr>) 112
     = [SetWriteDeadline, WriteClient [0x15, 0x03, 0x00, 0x00, 0x02, 0x02, 112],
        Log (LogAlertWrite (Error ''broken pipe''))]
   \<and> alert ((exampleConn [10, 1, 2, 3] [])
              \<lparr>setWriteDeadlineErr := Some (Error ''use of closed network connection'')\<rparr>) 49
     = [SetWriteDeadline, Log (LogAlertDeadline (Error ''use of closed network connection''))]"
proof -
  let ?conn = "exampleConn [10, 1, 2, 3] []"
  let ?broken = "?conn\<lparr>writeErr := Some (Error ''broken pipe'')\<rparr>"
  let ?closed = "?conn\<lparr>setWriteDeadlineErr := Some (Error ''use of closed network connection'')\<rparr>"
  have "alert ?conn 80 = [SetWriteDeadline, WriteClient [0x15, 0x03, 0x00, 0x00, 0x02, 0x02, 80]]"
    using alert_writes_fatal_record [of ?conn 80, THEN conjunct2, THEN conjunct2, THEN conjunct1]
    by simp
  moreover have "alert ?broken 112
     = [SetWriteDeadline, WriteClient [0x15, 0x03, 0x00, 0x00, 0x02, 0x02, 112],
        Log (LogAlertWrite (Error ''broken pipe''))]"
    using alert_writes_fatal_record [of ?broken 112, THEN conjunct2, THEN conjunct2,
        THEN conjunct2, THEN conjunct1]
    by simp
  moreover have "alert ?closed 49
     = [SetWriteDeadline, Log (LogAlertDeadline (Error ''use of closed network connection''))]"
    using alert_writes_fatal_record [of ?closed 49, THEN conjunct2, THEN conjunct2,
        THEN conjunct2, THEN conjunct2, THEN conjunct1]
    by simp
  ultimately show ?thesis by simp
qed

section \<open>Properties of the tee reader\<close>

lemma teeRun_consumed:
  "teeRun prog stream buf0 = (result, rest, buf) \<Longrightarrow>
     stream = consumed stream rest @ rest \<and> buf = buf0 @ consumed stream rest"
proof (induction prog arbitrary: stream buf0)
  case (Done x)
  then show ?case by (simp add: consumed_def)
next
  case (Read n k)
  from Read.prems have run: "teeRun (k (take n stream)) (drop n stream) (buf0 @ take n stream) = (result, rest, buf)"
    by simp
  have ih: "drop n stream = consumed (drop n stream) rest @ rest \<and>
      buf = (buf0 @ take n stream) @ consumed (drop n stream) rest"
    by (rule Read.IH [OF _ run]) simp
  then have len: "length rest \<le> length (drop n stream)"
    by (metis length_append le_add2)
  have "stream = take n stream @ drop n stream" by simp
  moreover have "consumed stream rest = take n stream @ consumed (drop n stream) rest"
  proof -
    have "stream = (take n stream @ consumed (drop n stream) rest) @ rest"
      using ih by (metis append_assoc append_take_drop_id)
    then have "take (length stream - length rest) stream = take n stream @ consumed (drop n stream) rest"
      by (metis append_eq_conv_conj length_append add_diff_cancel_right')
    then show ?thesis by (simp add: consumed_def)
  qed
  ultimately show ?case using ih by (metis append_assoc)
qed


lemma teeRun_buffer:
  "teeRun extractor (incoming conn) [] = (result, rest, buf) \<Longrightarrow>
     buf = teeBuffer extractor conn \<and> consumed (incoming conn) rest = teeBuffer extractor conn"
  using teeRun_consumed [of extractor "incoming conn" "[]" result rest buf]
  by (simp add: teeBuffer_def)

section \<open>Properties of the dispatcher\<close>

lemma dispatch_denied:
  assumes "setReadDeadlineErr conn = None"
    and "teeRun extractor (incoming conn) [] = (Inr sni, rest, buf)"
    and "clearReadDeadlineErr conn = None"
    and "Match p sni = Inr route"
    and "\<not> clientAllowed route (addrIP (RemoteAddr conn))"
  shows "dispatchConn extractor p conn net =
       [SetReadDeadline, ReadClient buf, ClearReadDeadline, SetKeepAlive, SetKeepAlivePeriod]
       @ alert conn 49
       @ [Log (LogDenied (addrIP (RemoteAddr conn)) sni (Backend route)), CloseClient]"
  using assms teeRun_consumed [OF assms(2)]
  by (simp add: dispatchConn_def routed_def tlsAccessDenied_def)

lemma Match_guardedRoute: "Match (proxyOf [guardedRoute]) ''a.com'' = Inr guardedRoute"
  by (simp add: Match_def proxyOf_def guardedRoute_def MatchString_anchored matchesWhole_def)

lemma guardedRoute_denies: "\<not> clientAllowed guardedRoute [10, 1, 2, 3]"
  by (simp add: clientAllowed_def guardedRoute_def Contains_10_8 Contains_10_1_16
      Size_slash8 Size_slash16)

lemma guardedRoute_allows: "clientAllowed guardedRoute [10, 2, 2, 3]"
  by (simp add: clientAllowed_def guardedRoute_def Contains_10_8 Contains_10_1_16
      Size_slash8 Size_slash16)

text \<open>
  C4. For every connection that reaches the access controller (the read deadline was
  set, the extractor returned a hostname, the deadline was cleared, a route matched) and
  whose client address the controller denies for that route, the dispatcher runs the
  alert emitter with the description 49 (access denied), logs the denial with the
  client's address, the hostname and the backend, closes the client's socket and
  returns. It never dials the backend: no event of the run dials, writes to the upstream
  socket or starts a relay, so the backend receives no byte. What the client is sent, when
  the write deadline can be set, is the one record that ends in 49.
\<close>

theorem denied_client_never_reaches_upstream:
  assumes "setReadDeadlineErr conn = None"
    and "teeRun extractor (incoming conn) [] = (Inr sni, rest, buf)"
    and "clearReadDeadlineErr conn = None"
    and "Match p sni = Inr route"
    and "\<not> clientAllowed route (addrIP (RemoteAddr conn))"
  shows "dispatchConn extractor p conn net =
       [SetReadDeadline, ReadClient buf, ClearReadDeadline, SetKeepAlive, SetKeepAlivePeriod]
       @ alert conn 49
       @ [Log (LogDenied (addrIP (RemoteAddr conn)) sni (Backend route)), CloseClient]
     \<and> (\<forall>ev \<in> set (dispatchConn extractor p conn net). \<not> reachesUpstream ev)
     \<and> (setWriteDeadlineErr conn = None \<longrightarrow>
          filter isWriteClient (dispatchConn extractor p conn net)
            = [WriteClient [0x15, 0x03, 0x00, 0x00, 0x02, 0x02, 49]])"
proof -
  note t = dispatch_denied [OF assms, of net]
  have "\<forall>ev \<in> set (dispatchConn extractor p conn net). \<not> reachesUpstream ev"
    unfolding t by (auto dest: alert_not_upstream)
  moreover have "setWriteDeadlineErr conn = None \<longrightarrow>
          filter isWriteClient (dispatchConn extractor p conn net)
            = [WriteClient [0x15, 0x03, 0x00, 0x00, 0x02, 0x02, 49]]"
    unfolding t by (auto simp add: alert_def split: option.splits)
  ultimately show ?thesis using t by simp
qed

text \<open>
  A client at 10.1.2.3 asks for a.com on a route that allows 10.0.0.0/8 and denies
  10.1.0.0/16: the whole run.
\<close>

theorem denied_client_never_reaches_upstream_witness:
  "dispatchConn (fixedExtractor 5 ''a.com'') (proxyOf [guardedRoute])
      (exampleConn [10, 1, 2, 3] [22, 3, 1, 0, 5, 1, 2, 3]) (exampleNet None)
   = [SetReadDeadline, ReadClient [22, 3, 1, 0, 5], ClearReadDeadline, SetKeepAlive,
      SetKeepAlivePeriod, SetWriteDeadline, WriteClient [21, 3, 0, 0, 2, 2, 49],
      Log (LogDenied [10, 1, 2, 3] ''a.com'' ''10.0.0.1:443''), CloseClient]"
proof -
  let ?conn = "exampleConn [10, 1, 2, 3] [22, 3, 1, 0, 5, 1, 2, 3]"
  have a1: "setReadDeadlineErr ?conn = None" by simp
  have a2: "teeRun (fixedExtractor 5 ''a.com'') (incoming ?conn) []
      = (Inr ''a.com'', [1, 2, 3], [22, 3, 1, 0, 5])"
    by simp
  have a3: "clearReadDeadlineErr ?conn = None" by simp
  have a5: "\<not> clientAllowed guardedRoute (addrIP (RemoteAddr ?conn))"
    using guardedRoute_denies by simp
  from denied_client_never_reaches_upstream [OF a1 a2 a3 Match_guardedRoute a5, of "exampleNet None"]
  show ?thesis
    by (simp add: alert_def)
qed

lemma replay_shape:
  "replay conn net route sni buf =
     WriteUpstream buf #
       (if replayErr net = None
        then [Log (LogRouting (RemoteAddr conn) sni (Backend route)),
              Go ClientToUpstream, Go UpstreamToClient, Wait]
        else alert conn tlsInternalError @ [Log (LogReplayFailed (Backend route))])"
  by (simp add: replay_def relay_def split: option.splits)


lemma replay_writes: "WriteUpstream bs \<in> set (replay conn net route sni buf) \<Longrightarrow> bs = buf"
  by (auto simp add: replay_shape split: if_splits dest: alert_simps)

lemma dialed_writes: "WriteUpstream bs \<in> set (dialed conn net route sni buf) \<Longrightarrow> bs = buf"
  by (auto simp add: dialed_def split_beta split: if_splits option.splits
      dest: alert_simps replay_writes)

lemma routed_writes: "WriteUpstream bs \<in> set (routed p conn net sni buf) \<Longrightarrow> bs = buf"
  by (auto simp add: routed_def Let_def split: if_splits option.splits sum.splits
      dest: alert_simps dialed_writes)

lemma dispatch_writes:
  assumes "WriteUpstream bs \<in> set (dispatchConn extractor p conn net)"
  shows "bs = teeBuffer extractor conn
     \<and> ReadClient (teeBuffer extractor conn) \<in> set (dispatchConn extractor p conn net)"
proof -
  obtain result rest buf where run: "teeRun extractor (incoming conn) [] = (result, rest, buf)"
    by (cases "teeRun extractor (incoming conn) []") auto
  note b = teeRun_buffer [OF run]
  from assms run b show ?thesis
    by (auto simp add: dispatchConn_def split: option.splits sum.splits
        dest: alert_simps routed_writes)
qed

lemma replay_go:
  "Go d \<in> set (replay conn net route sni buf) \<Longrightarrow>
     replayErr net = None
     \<and> replay conn net route sni buf =
         [WriteUpstream buf, Log (LogRouting (RemoteAddr conn) sni (Backend route)),
          Go ClientToUpstream, Go UpstreamToClient, Wait]"
  by (auto simp add: replay_shape split: if_splits dest: alert_simps)

lemma dialed_go:
  assumes "Go d \<in> set (dialed conn net route sni buf)"
  shows "replayErr net = None
     \<and> (\<exists>before. dialed conn net route sni buf =
           before @ [WriteUpstream buf, Log (LogRouting (RemoteAddr conn) sni (Backend route)),
                     Go ClientToUpstream, Go UpstreamToClient, Wait, CloseUpstream]
         \<and> (\<forall>ev \<in> set before. \<not> isGo ev \<and> \<not> isWriteUpstream ev))"
proof -
  from assms have g: "Go d \<in> set (replay conn net route sni buf)"
    by (auto simp add: dialed_def split_beta split: if_splits option.splits dest: alert_simps)
  note r = replay_go [OF g]
  show ?thesis
  proof (cases "SendProxy route \<noteq> ProxyNone")
    case False
    then have "dialed conn net route sni buf =
        [] @ [WriteUpstream buf, Log (LogRouting (RemoteAddr conn) sni (Backend route)),
                     Go ClientToUpstream, Go UpstreamToClient, Wait, CloseUpstream]"
      using r by (simp add: dialed_def)
    then show ?thesis using r by fastforce
  next
    case True
    with assms have "snd (proxyHeader net route (RemoteAddr conn)) = None"
      by (auto simp add: dialed_def split_beta split: option.splits dest: alert_simps)
    with True have "dialed conn net route sni buf =
        [ProxyHeader (fst (proxyHeader net route (RemoteAddr conn)))]
        @ [WriteUpstream buf, Log (LogRouting (RemoteAddr conn) sni (Backend route)),
                     Go ClientToUpstream, Go UpstreamToClient, Wait, CloseUpstream]"
      using r by (simp add: dialed_def split_beta)
    moreover have "\<forall>ev \<in> set [ProxyHeader (fst (proxyHeader net route (RemoteAddr conn)))].
        \<not> isGo ev \<and> \<not> isWriteUpstream ev" by simp
    ultimately show ?thesis using r by blast
  qed
qed

lemma routed_go:
  assumes "Go d \<in> set (routed p conn net sni buf)"
  shows "replayErr net = None
     \<and> (\<exists>before (route :: Route). routed p conn net sni buf =
           before @ [WriteUpstream buf, Log (LogRouting (RemoteAddr conn) sni (Backend route)),
                     Go ClientToUpstream, Go UpstreamToClient, Wait, CloseUpstream]
         \<and> (\<forall>ev \<in> set before. \<not> isGo ev \<and> \<not> isWriteUpstream ev))"
proof -
  from assms obtain route where m: "Match p sni = Inr route"
      and a: "clientAllowed route (addrIP (RemoteAddr conn))"
      and dl: "dialErr net (Backend route) = None"
      and g: "Go d \<in> set (dialed conn net route sni buf)"
    by (auto simp add: routed_def Let_def split: if_splits option.splits sum.splits
        dest: alert_simps)
  from dialed_go [OF g] obtain before where
      r: "replayErr net = None"
      and e: "dialed conn net route sni buf =
           before @ [WriteUpstream buf, Log (LogRouting (RemoteAddr conn) sni (Backend route)),
                     Go ClientToUpstream, Go UpstreamToClient, Wait, CloseUpstream]"
      and n: "\<forall>ev \<in> set before. \<not> isGo ev \<and> \<not> isWriteUpstream ev"
    by blast
  have "routed p conn net sni buf =
      (Dial (Backend route) # before)
      @ [WriteUpstream buf, Log (LogRouting (RemoteAddr conn) sni (Backend route)),
                     Go ClientToUpstream, Go UpstreamToClient, Wait, CloseUpstream]"
    using m a dl e by (simp add: routed_def)
  moreover have "\<forall>ev \<in> set (Dial (Backend route) # before). \<not> isGo ev \<and> \<not> isWriteUpstream ev"
    using n by simp
  ultimately show ?thesis using r by blast
qed

lemma dispatch_go:
  assumes "Go d \<in> set (dispatchConn extractor p conn net)"
  shows "\<exists>before sni (route :: Route).
            dispatchConn extractor p conn net =
              before @
              [WriteUpstream (teeBuffer extractor conn),
               Log (LogRouting (RemoteAddr conn) sni (Backend route)),
               Go ClientToUpstream, Go UpstreamToClient, Wait, CloseUpstream, CloseClient]
            \<and> (\<forall>ev \<in> set before. \<not> isGo ev \<and> \<not> isWriteUpstream ev)
            \<and> ReadClient (teeBuffer extractor conn) \<in> set before
            \<and> replayErr net = None"
proof -
  obtain result rest buf where run: "teeRun extractor (incoming conn) [] = (result, rest, buf)"
    by (cases "teeRun extractor (incoming conn) []") auto
  note b = teeRun_buffer [OF run]
  from assms run b obtain sni where s: "setReadDeadlineErr conn = None" "result = Inr sni"
      "clearReadDeadlineErr conn = None"
      and g: "Go d \<in> set (routed p conn net sni (teeBuffer extractor conn))"
    by (auto simp add: dispatchConn_def split: option.splits sum.splits dest: alert_simps)
  from routed_go [OF g] obtain before and route :: Route where
      r: "replayErr net = None"
      and e: "routed p conn net sni (teeBuffer extractor conn) =
           before @ [WriteUpstream (teeBuffer extractor conn),
                     Log (LogRouting (RemoteAddr conn) sni (Backend route)),
                     Go ClientToUpstream, Go UpstreamToClient, Wait, CloseUpstream]"
      and n: "\<forall>ev \<in> set before. \<not> isGo ev \<and> \<not> isWriteUpstream ev"
    by blast
  let ?before = "[SetReadDeadline, ReadClient (teeBuffer extractor conn), ClearReadDeadline,
      SetKeepAlive, SetKeepAlivePeriod] @ before"
  have "dispatchConn extractor p conn net =
      ?before @ [WriteUpstream (teeBuffer extractor conn),
                     Log (LogRouting (RemoteAddr conn) sni (Backend route)),
                     Go ClientToUpstream, Go UpstreamToClient, Wait, CloseUpstream, CloseClient]"
    using s run b e by (simp add: dispatchConn_def)
  moreover have "\<forall>ev \<in> set ?before. \<not> isGo ev \<and> \<not> isWriteUpstream ev"
    using n by simp
  moreover have "ReadClient (teeBuffer extractor conn) \<in> set ?before" by simp
  ultimately show ?thesis using r by blast
qed

text \<open>
  C6. Within every connection the steps run in sequence. Every write of the replay to
  the upstream socket carries exactly the tee buffer, which is what was read from the
  client while sniffing, unchanged. When a relay task is started, the run is: events
  among which there is the read of those bytes from the client and neither a relay task
  nor a replay, then the replay of the tee buffer, which succeeded, then the log line,
  then the two relay tasks, the wait for them, and the two closes. So the replay is
  complete before either copy starts, and the upstream sees the handshake first.
\<close>

theorem replay_precedes_relay:
  "(\<forall>bs. WriteUpstream bs \<in> set (dispatchConn extractor p conn net) \<longrightarrow>
        bs = teeBuffer extractor conn
        \<and> ReadClient bs \<in> set (dispatchConn extractor p conn net))
   \<and> ((\<exists>d. Go d \<in> set (dispatchConn extractor p conn net)) \<longrightarrow>
        (\<exists>before sni (route :: Route).
            dispatchConn extractor p conn net =
              before @
              [WriteUpstream (teeBuffer extractor conn),
               Log (LogRouting (RemoteAddr conn) sni (Backend route)),
               Go ClientToUpstream, Go UpstreamToClient, Wait, CloseUpstream, CloseClient]
            \<and> (\<forall>ev \<in> set before. \<not> isGo ev \<and> \<not> isWriteUpstream ev)
            \<and> ReadClient (teeBuffer extractor conn) \<in> set before
            \<and> replayErr net = None))"
  using dispatch_writes [of _ extractor p conn net] dispatch_go [of _ extractor p conn net]
  by blast


text \<open>
  A client at 10.2.2.3, which the route allows, sends 8 bytes of which the extractor
  reads 5: the 5 bytes are replayed, then the relay starts.
\<close>

theorem replay_precedes_relay_witness:
  "dispatchConn (fixedExtractor 5 ''a.com'') (proxyOf [guardedRoute])
      (exampleConn [10, 2, 2, 3] [22, 3, 1, 0, 5, 1, 2, 3]) (exampleNet None)
   = [SetReadDeadline, ReadClient [22, 3, 1, 0, 5], ClearReadDeadline, SetKeepAlive,
      SetKeepAlivePeriod, Dial ''10.0.0.1:443'', WriteUpstream [22, 3, 1, 0, 5],
      Log (LogRouting \<lparr>addrIP = [10, 2, 2, 3], addrPort = 50000\<rparr> ''a.com'' ''10.0.0.1:443''),
      Go ClientToUpstream, Go UpstreamToClient, Wait, CloseUpstream, CloseClient]
   \<and> teeBuffer (fixedExtractor 5 ''a.com'') (exampleConn [10, 2, 2, 3] [22, 3, 1, 0, 5, 1, 2, 3])
       = [22, 3, 1, 0, 5]
   \<and> replayErr (exampleNet None) = None"
proof -
  let ?x = "fixedExtractor 5 ''a.com''"
  let ?conn = "exampleConn [10, 2, 2, 3] [22, 3, 1, 0, 5, 1, 2, 3]"
  let ?run = "dispatchConn ?x (proxyOf [guardedRoute]) ?conn (exampleNet None)"
  have a: "clientAllowed guardedRoute [10, 2, 2, 3]"
    by (rule guardedRoute_allows)
  have run: "?run
   = [SetReadDeadline, ReadClient [22, 3, 1, 0, 5], ClearReadDeadline, SetKeepAlive,
      SetKeepAlivePeriod, Dial ''10.0.0.1:443'', WriteUpstream [22, 3, 1, 0, 5],
      Log (LogRouting \<lparr>addrIP = [10, 2, 2, 3], addrPort = 50000\<rparr> ''a.com'' ''10.0.0.1:443''),
      Go ClientToUpstream, Go UpstreamToClient, Wait, CloseUpstream, CloseClient]"
    using a Match_guardedRoute
    by (simp add: dispatchConn_def routed_def dialed_def replay_def relay_def consumed_def)
  then have w: "WriteUpstream [22, 3, 1, 0, 5] \<in> set ?run" and g: "\<exists>d. Go d \<in> set ?run"
    by auto
  note t = replay_precedes_relay [of ?x "proxyOf [guardedRoute]" ?conn "exampleNet None"]
  from t [THEN conjunct1, rule_format, OF w]
  have b: "teeBuffer ?x ?conn = [22, 3, 1, 0, 5]" by simp
  from t g have "replayErr (exampleNet None) = None" by blast
  with run b show ?thesis by simp
qed

lemma replay_scope:
  "ev \<in> set (replay conn net route sni buf) \<Longrightarrow>
     ev \<noteq> CloseClient \<and> ev \<noteq> CloseUpstream \<and> (\<forall>b. ev \<noteq> Dial b)"
  by (auto simp add: replay_shape split: if_splits dest: alert_simps)

lemma dialed_scope:
  "\<exists>work. dialed conn net route sni buf = work @ [CloseUpstream]
     \<and> CloseUpstream \<notin> set work \<and> CloseClient \<notin> set work \<and> (\<forall>b. Dial b \<notin> set work)"
  by (auto simp add: dialed_def split_beta split: option.splits dest: alert_simps replay_scope)

lemma routed_scope:
  "CloseClient \<notin> set (routed p conn net sni buf)
   \<and> (CloseUpstream \<in> set (routed p conn net sni buf) \<longleftrightarrow>
        (\<exists>b. Dial b \<in> set (routed p conn net sni buf) \<and> dialErr net b = None))
   \<and> (CloseUpstream \<in> set (routed p conn net sni buf) \<longrightarrow>
        (\<exists>work. routed p conn net sni buf = work @ [CloseUpstream] \<and> CloseUpstream \<notin> set work))"
proof (cases "Match p sni")
  case (Inl err)
  then show ?thesis
    by (auto simp add: routed_def dest: alert_simps)
next
  case (Inr route)
  show ?thesis
  proof (cases "clientAllowed route (addrIP (RemoteAddr conn))")
    case False
    with Inr show ?thesis
      by (auto simp add: routed_def dest: alert_simps)
  next
    case True
    show ?thesis
    proof (cases "dialErr net (Backend route)")
      case (Some err)
      with Inr True show ?thesis
        by (auto simp add: routed_def dest: alert_simps)
    next
      case None
      obtain work where w: "dialed conn net route sni buf = work @ [CloseUpstream]"
        "CloseUpstream \<notin> set work" "CloseClient \<notin> set work" "\<forall>b. Dial b \<notin> set work"
        using dialed_scope [of conn net route sni buf] by blast
      have r: "routed p conn net sni buf = (Dial (Backend route) # work) @ [CloseUpstream]"
        using Inr True None w by (simp add: routed_def)
      have "CloseUpstream \<notin> set (Dial (Backend route) # work)" using w by simp
      with r have "\<exists>work'. routed p conn net sni buf = work' @ [CloseUpstream] \<and> CloseUpstream \<notin> set work'"
        by blast
      moreover have "CloseClient \<notin> set (routed p conn net sni buf)"
        using w unfolding r by simp
      moreover have "CloseUpstream \<in> set (routed p conn net sni buf)"
        unfolding r by simp
      moreover have "Dial (Backend route) \<in> set (routed p conn net sni buf)"
        unfolding r by simp
      ultimately show ?thesis using None by blast
    qed
  qed
qed

text \<open>
  C8. The dispatcher returns nothing to its caller, so no error leaves it, and every
  run ends by closing the client's socket, once and as its last event: after the relay
  and after every abort (the read deadline that cannot be set or cleared, the extractor's
  error, no matching route, the denial, the failed dial, the failed PROXY header, the
  failed replay). The upstream socket is closed exactly when the dial succeeded, once,
  and just before the client's socket.
\<close>

theorem dispatchConn_closes_sockets:
  "\<exists>body. dispatchConn extractor p conn net = body @ [CloseClient]
     \<and> CloseClient \<notin> set body
     \<and> (CloseUpstream \<in> set body \<longleftrightarrow>
          (\<exists>backend. Dial backend \<in> set body \<and> dialErr net backend = None))
     \<and> (CloseUpstream \<in> set body \<longrightarrow>
          (\<exists>work. body = work @ [CloseUpstream] \<and> CloseUpstream \<notin> set work))"
proof -
  obtain result rest buf where run: "teeRun extractor (incoming conn) [] = (result, rest, buf)"
    by (cases "teeRun extractor (incoming conn) []") auto
  define body where "body = butlast (dispatchConn extractor p conn net)"
  have d: "dispatchConn extractor p conn net = body @ [CloseClient]"
    by (simp add: body_def dispatchConn_def)
  have plain: "\<And>evs. \<forall>ev \<in> set evs. ev \<noteq> CloseClient \<and> ev \<noteq> CloseUpstream \<and> (\<forall>b. ev \<noteq> Dial b) \<Longrightarrow>
      body = evs \<Longrightarrow> ?thesis"
    using d by auto
  show ?thesis
  proof (cases "setReadDeadlineErr conn = None \<and> (\<exists>sni. result = Inr sni) \<and> clearReadDeadlineErr conn = None")
    case False
    then show ?thesis
      using run
      by (intro plain [of body])
        (auto simp add: body_def dispatchConn_def split: option.splits sum.splits dest: alert_simps)
  next
    case True
    then obtain sni where s: "setReadDeadlineErr conn = None" "result = Inr sni"
        "clearReadDeadlineErr conn = None" by blast
    let ?pre = "[SetReadDeadline, ReadClient (consumed (incoming conn) rest), ClearReadDeadline,
        SetKeepAlive, SetKeepAlivePeriod]"
    have b: "body = ?pre @ routed p conn net sni buf"
      using s run by (simp add: body_def dispatchConn_def)
    note r = routed_scope [of p conn net sni buf]
    have c1: "CloseClient \<notin> set body" using r unfolding b by simp
    have c2: "CloseUpstream \<in> set body \<longleftrightarrow>
          (\<exists>backend. Dial backend \<in> set body \<and> dialErr net backend = None)"
      using r unfolding b by simp
    have c3: "CloseUpstream \<in> set body \<longrightarrow>
          (\<exists>work. body = work @ [CloseUpstream] \<and> CloseUpstream \<notin> set work)"
    proof
      assume "CloseUpstream \<in> set body"
      then have "CloseUpstream \<in> set (routed p conn net sni buf)" unfolding b by simp
      with r obtain work where w: "routed p conn net sni buf = work @ [CloseUpstream]"
          "CloseUpstream \<notin> set work" by blast
      then have "body = (?pre @ work) @ [CloseUpstream] \<and> CloseUpstream \<notin> set (?pre @ work)"
        unfolding b by simp
      then show "\<exists>work. body = work @ [CloseUpstream] \<and> CloseUpstream \<notin> set work" by blast
    qed
    from d c1 c2 c3 show ?thesis by blast
  qed
qed

text \<open>
  A run whose dial succeeds and whose replay fails: the backend was dialed, and the run
  ends by closing the upstream socket and then the client's.
\<close>

theorem dispatchConn_closes_sockets_witness:
  "dialErr (exampleNet (Some (Error ''broken pipe''))) ''10.0.0.1:443'' = None
   \<and> dispatchConn (fixedExtractor 5 ''a.com'') (proxyOf [guardedRoute])
        (exampleConn [10, 2, 2, 3] [22, 3, 1, 0, 5, 1, 2, 3])
        (exampleNet (Some (Error ''broken pipe'')))
      = [SetReadDeadline, ReadClient [22, 3, 1, 0, 5], ClearReadDeadline, SetKeepAlive,
         SetKeepAlivePeriod, Dial ''10.0.0.1:443'', WriteUpstream [22, 3, 1, 0, 5],
         SetWriteDeadline, WriteClient [21, 3, 0, 0, 2, 2, 80],
         Log (LogReplayFailed ''10.0.0.1:443'')] @ [CloseUpstream] @ [CloseClient]"
proof -
  let ?x = "fixedExtractor 5 ''a.com''"
  let ?conn = "exampleConn [10, 2, 2, 3] [22, 3, 1, 0, 5, 1, 2, 3]"
  let ?net = "exampleNet (Some (Error ''broken pipe''))"
  let ?run = "dispatchConn ?x (proxyOf [guardedRoute]) ?conn ?net"
  let ?work = "[SetReadDeadline, ReadClient [22, 3, 1, 0, 5], ClearReadDeadline, SetKeepAlive,
         SetKeepAlivePeriod, Dial ''10.0.0.1:443'', WriteUpstream [22, 3, 1, 0, 5],
         SetWriteDeadline, WriteClient [21, 3, 0, 0, 2, 2, 80],
         Log (LogReplayFailed ''10.0.0.1:443'')]"
  have a: "clientAllowed guardedRoute [10, 2, 2, 3]"
    by (rule guardedRoute_allows)
  have ok: "dialErr ?net ''10.0.0.1:443'' = None" by simp
  have run: "?run = (?work @ [CloseUpstream]) @ [CloseClient]"
    using a Match_guardedRoute
    by (simp add: dispatchConn_def routed_def dialed_def replay_def alert_def consumed_def
        tlsInternalError_def)
  from dispatchConn_closes_sockets [of ?x "proxyOf [guardedRoute]" ?conn ?net]
  obtain body where b: "?run = body @ [CloseClient]"
      and u: "CloseUpstream \<in> set body \<longleftrightarrow>
          (\<exists>backend. Dial backend \<in> set body \<and> dialErr ?net backend = None)"
      and w: "CloseUpstream \<in> set body \<longrightarrow>
          (\<exists>work. body = work @ [CloseUpstream] \<and> CloseUpstream \<notin> set work)"
    by blast
  from b run have body: "body = ?work @ [CloseUpstream]" by simp
  then have "Dial ''10.0.0.1:443'' \<in> set body" by simp
  with ok u have "CloseUpstream \<in> set body" by blast
  with w obtain work where "body = work @ [CloseUpstream]" and "CloseUpstream \<notin> set work"
    by blast
  with body have "work = ?work" by simp
  with run ok show ?thesis by simp
qed

section \<open>Properties of the listener\<close>

lemma acceptLoop_until_error:
  "acceptLoop (map Inr conns @ Inl err # later)
     = (concat (map (\<lambda>conn. [Accept, GoDispatch conn]) conns) @ [Accept], Some err)"
  by (induction conns) simp_all

lemma acceptLoop_no_error:
  "acceptLoop (map Inr conns) = (concat (map (\<lambda>conn. [Accept, GoDispatch conn]) conns), None)"
  by (induction conns) simp_all

text \<open>
  C9. When an \<^verbatim>\<open>Accept\<close> of the listener fails, \<open>ListenAndServe\<close> stops accepting and
  returns that error to its caller: it has handed the connections accepted before to the
  dispatcher, it closes the listener, and it calls \<^verbatim>\<open>Accept\<close> no more, whatever the
  listener would have answered next, so the error is never retried. Without an error of
  \<^verbatim>\<open>Accept\<close> the loop goes on and the function does not return.
\<close>

theorem ListenAndServe_accept_error_is_terminal:
  "(listenErr l = None \<and> accepts l = map Inr conns @ Inl err # later \<longrightarrow>
      ListenAndServe p bind l
        = (Listen bind # concat (map (\<lambda>conn. [Accept, GoDispatch conn]) conns)
             @ [Accept, CloseListener],
           Some err))
   \<and> (listenErr l = None \<and> accepts l = map Inr conns \<longrightarrow>
        ListenAndServe p bind l
          = (Listen bind # concat (map (\<lambda>conn. [Accept, GoDispatch conn]) conns), None))"
  by (simp add: ListenAndServe_def acceptLoop_until_error acceptLoop_no_error)

text \<open>
  A listener that accepts one connection, fails, and would have accepted another.
\<close>

theorem ListenAndServe_accept_error_is_terminal_witness:
  "ListenAndServe (proxyOf [guardedRoute]) '':443''
     \<lparr>listenErr = None,
      accepts = [Inr (exampleConn [10, 2, 2, 3] []),
                 Inl (Error ''accept: too many open files''),
                 Inr (exampleConn [10, 1, 2, 3] [])]\<rparr>
   = ([Listen '':443'', Accept, GoDispatch (exampleConn [10, 2, 2, 3] []), Accept,
       CloseListener],
      Some (Error ''accept: too many open files''))"
  using ListenAndServe_accept_error_is_terminal
    [of "\<lparr>listenErr = None,
      accepts = [Inr (exampleConn [10, 2, 2, 3] []),
                 Inl (Error ''accept: too many open files''),
                 Inr (exampleConn [10, 1, 2, 3] [])]\<rparr>"
        "[exampleConn [10, 2, 2, 3] []]" "Error ''accept: too many open files''"
        "[Inr (exampleConn [10, 1, 2, 3] [])]" "proxyOf [guardedRoute]" "'':443''"]
  by simp

section \<open>Properties of the SNI extractor\<close>

lemma unat_byte_of_nat: "unat (of_nat n :: byte) = n mod 256"
  by (simp add: unat_of_nat)

lemma be_enc1: "n < 256 \<Longrightarrow> be (enc1 n) = n"
  by (simp add: be_def enc1_def unat_byte_of_nat)

lemma be_enc2: "n < 65536 \<Longrightarrow> be (enc2 n) = n"
proof -
  assume "n < 65536"
  then have "n div 256 < 256" by simp
  then have "(n div 256) mod 256 = n div 256" by simp
  then show ?thesis
    by (simp add: be_def enc2_def unat_byte_of_nat)
qed

lemma be_enc3: "n < 65536 \<Longrightarrow> be (enc3 n) = n"
proof -
  assume n: "n < 65536"
  then have "n div 256 < 256" by simp
  then have a: "(n div 256) mod 256 = n div 256" by simp
  from n have b: "n div 65536 = 0" by simp
  show ?thesis
    by (simp add: be_def enc3_def unat_byte_of_nat a b)
qed

lemma length_enc [simp]: "length (enc1 n) = 1" "length (enc2 n) = 2" "length (enc3 n) = 3"
  by (simp_all add: enc1_def enc2_def enc3_def)

lemma enc_not_Nil [simp]: "enc1 n \<noteq> []" "enc2 n \<noteq> []" "enc3 n \<noteq> []"
  by (simp_all add: enc1_def enc2_def enc3_def)

lemma vec_enc1: "length xs < 256 \<Longrightarrow> vec (Suc 0) (enc1 (length xs) @ xs @ rest) = Some (xs, rest)"
  by (simp add: vec_def be_enc1)

lemma vec_enc2: "length xs < 65536 \<Longrightarrow> vec 2 (enc2 (length xs) @ xs @ rest) = Some (xs, rest)"
  by (simp add: vec_def be_enc2)

lemma hostnameOf_bytesOf: "hostnameOf (bytesOf s) = s"
proof -
  have "char_of (unat (of_nat (of_char c) :: byte)) = c" for c :: char
  proof -
    have "(of_char c :: nat) mod 256 = of_char c" by (rule of_char_mod_256)
    then show ?thesis by (simp add: unat_byte_of_nat)
  qed
  then show ?thesis
    by (simp add: hostnameOf_def bytesOf_def comp_def map_idI)
qed

lemma length_bytesOf [simp]: "length (bytesOf s) = length s"
  by (simp add: bytesOf_def)

lemma length_serverNameList [simp]: "length (serverNameList name) = length name + 3"
  by (simp add: serverNameList_def)

lemma parseNames_host:
  "length name < 65536 \<Longrightarrow> parseNames (serverNameList name) = Inr name"
  by (subst parseNames.simps) (simp add: serverNameList_def be_enc2 hostnameOf_bytesOf)

lemma parseServerName_list:
  "length name + 3 < 65536 \<Longrightarrow>
     parseServerName (enc2 (length name + 3) @ serverNameList name) = Inr name"
  using vec_enc2 [of "serverNameList name" "[]"]
  by (simp add: parseServerName_def parseNames_host)

lemma length_encodeExt [simp]: "length (encodeExt e) = length (snd e) + 4"
  by (simp add: encodeExt_def)

lemma parseExtensions_skip:
  "0 < t \<Longrightarrow> t < 65536 \<Longrightarrow> length d < 65536 \<Longrightarrow>
     parseExtensions (encodeExt (t, d) @ rest) = parseExtensions rest"
  by (subst parseExtensions.simps) (simp add: encodeExt_def be_enc2 Let_def)

lemma parseExtensions_serverName:
  "length name + 5 < 65536 \<Longrightarrow> parseExtensions (serverNameExt name @ rest) = Inr name"
  by (subst parseExtensions.simps)
    (simp add: serverNameExt_def encodeExt_def be_enc2 Let_def parseServerName_list)

lemma parseExtensions_before:
  "list_all (\<lambda>e. 0 < fst e \<and> fst e < 65536 \<and> length (snd e) < 65536) before \<Longrightarrow>
     parseExtensions (concat (map encodeExt before) @ rest) = parseExtensions rest"
proof (induction before)
  case Nil
  then show ?case by simp
next
  case (Cons e before)
  then show ?case
    using parseExtensions_skip [of "fst e" "snd e" "concat (map encodeExt before) @ rest"]
    by simp
qed

lemma length_serverNameExt [simp]: "length (serverNameExt name) = length name + 9"
  by (simp add: serverNameExt_def)

lemma parseExtensions_block:
  assumes "wellFormed version ch"
  shows "parseExtensions (extensionBlock ch) = Inr (serverName ch)"
proof -
  from assms have "length (extensionBlock ch) < 65536"
    by (simp add: wellFormed_def)
  then have "length (serverName ch) + 5 < 65536"
    by (simp add: extensionBlock_def)
  then show ?thesis
    using assms
    by (simp add: extensionBlock_def wellFormed_def parseExtensions_before
        parseExtensions_serverName)
qed

lemma parseHelloBody_helloBody:
  assumes "wellFormed version ch"
  shows "parseHelloBody (helloBody ch) = Inr (serverName ch)"
proof -
  from assms have l: "length (helloVersion ch) = 2" "length (helloRandom ch) = 32"
      "length (sessionID ch) < 256" "length (cipherSuites ch) < 65536"
      "length (compressionMethods ch) < 256" "length (extensionBlock ch) < 65536"
    by (simp_all add: wellFormed_def)
  have v4: "vec 2 (enc2 (length (extensionBlock ch)) @ extensionBlock ch)
      = Some (extensionBlock ch, [])"
    using vec_enc2 [OF l(6), of "[]"] by simp
  show ?thesis
    using l
    by (simp add: parseHelloBody_def helloBody_def vec_enc1 vec_enc2 v4
        parseExtensions_block [OF assms])
qed

lemma parseHandshake_handshake:
  assumes "wellFormed version ch"
  shows "parseHandshake (handshake ch) = Inr (serverName ch)"
proof -
  from assms have "length (handshake ch) < 65536" by (simp add: wellFormed_def)
  then have "length (helloBody ch) < 65536" by (simp add: handshake_def)
  then show ?thesis
    by (simp add: parseHandshake_def handshake_def be_enc3 Let_def
        parseHelloBody_helloBody [OF assms])
qed

lemma extractSNI_record:
  assumes "wellFormed version ch"
  shows "teeRun extractSNI (tlsRecord version ch @ rest) []
     = (Inr (serverName ch), rest, tlsRecord version ch)"
proof -
  from assms have l: "length version = 2" "length (handshake ch) < 65536"
    by (simp_all add: wellFormed_def)
  then obtain v0 v1 where v: "version = [v0, v1]"
    by (cases version; cases "tl version"; auto)
  show ?thesis
    using l
    by (simp add: extractSNI_def tlsRecord_def v be_enc2 parseHandshake_handshake [OF assms])
qed

text \<open>
  C3. For every well-formed ClientHello with a \<^verbatim>\<open>server_name\<close> extension, sent in one
  TLS record and followed by any bytes, the extractor returns exactly the hostname of the
  extension, the tee buffer is the record, byte for byte, and the bytes that follow the
  record are left on the client's stream. For every extractor and every stream, the tee
  buffer is exactly what the run has consumed of the stream: the stream is the buffer
  followed by what is left.
\<close>

theorem extractSNI_hostname_and_tee_buffer:
  "(wellFormed version ch \<longrightarrow>
      teeRun extractSNI (tlsRecord version ch @ later) []
        = (Inr (serverName ch), later, tlsRecord version ch))
   \<and> (teeRun extractor stream [] = (result, rest, buf) \<longrightarrow>
        stream = buf @ rest \<and> buf = consumed stream rest)"
proof (intro conjI impI)
  assume "wellFormed version ch"
  then show "teeRun extractSNI (tlsRecord version ch @ later) []
        = (Inr (serverName ch), later, tlsRecord version ch)"
    by (rule extractSNI_record)
next
  assume "teeRun extractor stream [] = (result, rest, buf)"
  from teeRun_consumed [OF this]
  show "stream = buf @ rest" and "buf = consumed stream rest" by simp_all
qed

text \<open>
  A ClientHello for a.com, with an extension before and one after the \<^verbatim>\<open>server_name\<close>
  extension, followed by the first bytes of another record.
\<close>

theorem extractSNI_hostname_and_tee_buffer_witness:
  "wellFormed [3, 1] exampleHello
   \<and> teeRun extractSNI (tlsRecord [3, 1] exampleHello @ [23, 3, 3, 0, 1, 9]) []
       = (Inr ''a.com'', [23, 3, 3, 0, 1, 9], tlsRecord [3, 1] exampleHello)
   \<and> length (tlsRecord [3, 1] exampleHello) = 83"
proof -
  have w: "wellFormed [3, 1] exampleHello"
    by (simp add: wellFormed_def exampleHello_def extensionBlock_def handshake_def
        helloBody_def serverNameExt_def serverNameList_def encodeExt_def)
  have n: "serverName exampleHello = ''a.com''"
    by (simp add: exampleHello_def)
  have l: "length (tlsRecord [3, 1] exampleHello) = 83"
    by (simp add: tlsRecord_def exampleHello_def extensionBlock_def handshake_def
        helloBody_def serverNameExt_def serverNameList_def encodeExt_def)
  from extractSNI_hostname_and_tee_buffer
    [of "[3, 1]" exampleHello "[23, 3, 3, 0, 1, 9]" "Done (Inl (Error []))" "[]" "Inl (Error [])" "[]" "[]"]
    w n l
  show ?thesis by simp
qed

end
